theory Spec2Isabelle
  imports Main
begin

section \<open>Go standard library: the string functions the source calls\<close>

text \<open>
  A Go \<^verbatim>\<open>string\<close> is a sequence of bytes, and so is a HOL \<^typ>\<open>string\<close>.
  The functions below follow package \<^verbatim>\<open>strings\<close> on byte strings.
\<close>

definition HasPrefix :: "string \<Rightarrow> string \<Rightarrow> bool" where
  "HasPrefix s p = (length p \<le> length s \<and> take (length p) s = p)"

text \<open>\<^verbatim>\<open>strings.Index\<close>: the position of the first instance of \<open>sep\<close>; Go's -1 is \<open>None\<close>.\<close>

fun Index :: "string \<Rightarrow> string \<Rightarrow> nat option" where
  "Index [] sep = (if sep = [] then Some 0 else None)"
| "Index (c # s) sep =
     (if HasPrefix (c # s) sep then Some 0 else map_option Suc (Index s sep))"

definition Contains :: "string \<Rightarrow> string \<Rightarrow> bool" where
  "Contains s substr = (Index s substr \<noteq> None)"

text \<open>
  \<^verbatim>\<open>strings.Cut\<close>:
  \<^verbatim>\<open>if i := Index(s, sep); i >= 0 { return s[:i], s[i+len(sep):], true }; return s, "", false\<close>
\<close>

definition Cut :: "string \<Rightarrow> string \<Rightarrow> string \<times> string \<times> bool" where
  "Cut s sep =
     (case Index s sep of
        Some i \<Rightarrow> (take i s, drop (i + length sep) s, True)
      | None \<Rightarrow> (s, [], False))"

text \<open>
  \<^verbatim>\<open>strings.ReplaceAll\<close>: the non-overlapping instances of \<open>old\<close>, from the left, become
  \<open>new\<close>. For an empty \<open>old\<close> Go inserts \<open>new\<close> before every character and at the end
  (the source never passes an empty \<open>old\<close>; here a character is a byte).
\<close>

function ReplaceAll :: "string \<Rightarrow> string \<Rightarrow> string \<Rightarrow> string" where
  "ReplaceAll [] old new = (if old = [] then new else [])"
| "ReplaceAll (c # s) old new =
     (if old = [] then new @ c # ReplaceAll s old new
      else if HasPrefix (c # s) old then new @ ReplaceAll (drop (length old) (c # s)) old new
      else c # ReplaceAll s old new)"
  by pat_completeness auto
termination
  by (relation "measure (\<lambda>(s, old, new). length s)") auto

lemma Index_bound: "Index s sep = Some i \<Longrightarrow> i + length sep \<le> length s"
  by (induction s arbitrary: i) (auto simp: HasPrefix_def split: if_splits)

text \<open>
  \<^verbatim>\<open>strings.Split\<close> with a non-empty separator: the substrings between the instances of
  \<open>sep\<close>, so one more part than there are instances. With an empty separator Go explodes the
  string into its characters (bytes here; the source splits on \<^verbatim>\<open>"/"\<close> only).
\<close>

function Split :: "string \<Rightarrow> string \<Rightarrow> string list" where
  "Split s sep =
     (if sep = [] then map (\<lambda>c. [c]) s
      else (case Index s sep of
              None \<Rightarrow> [s]
            | Some i \<Rightarrow> take i s # Split (drop (i + length sep) s) sep))"
  by pat_completeness auto
termination
proof (relation "measure (\<lambda>(s, sep). length s)")
  show "wf (measure (\<lambda>(s, sep). length s))" by simp
next
  fix s sep :: string and i :: nat
  assume "sep \<noteq> []" and "Index s sep = Some i"
  then have "i + length sep \<le> length s" and "0 < length sep"
    by (simp_all add: Index_bound)
  then have "length s - (i + length sep) < length s"
    by arith
  then show "((drop (i + length sep) s, sep), (s, sep)) \<in> measure (\<lambda>(s, sep). length s)"
    by simp
qed

declare Split.simps [simp del]

text \<open>\<^verbatim>\<open>strings.Join\<close>.\<close>

fun strings_Join :: "string list \<Rightarrow> string \<Rightarrow> string" where
  "strings_Join [] sep = []"
| "strings_Join [e] sep = e"
| "strings_Join (e # es) sep = e @ sep @ strings_Join es sep"

text \<open>
  \<^verbatim>\<open>fmt.Sprintf\<close> with string operands, for the verb \<^verbatim>\<open>%s\<close> (the only one in the formats
  of the source): a verb with no operand left prints \<^verbatim>\<open>%!s(MISSING)\<close>, operands that are
  left over are reported at the end, a lone \<^verbatim>\<open>%\<close> at the end prints \<^verbatim>\<open>%!(NOVERB)\<close>.
\<close>

fun Sprintf :: "string \<Rightarrow> string list \<Rightarrow> string" where
  "Sprintf [] args =
     (if args = [] then []
      else ''%!(EXTRA '' @ strings_Join (map (\<lambda>a. ''string='' @ a) args) '', '' @ '')'')"
| "Sprintf [c] args =
     (if c = CHR ''%'' then ''%!(NOVERB)'' @ Sprintf [] args else c # Sprintf [] args)"
| "Sprintf (c # d # f) args =
     (if c = CHR ''%'' \<and> d = CHR ''s'' then
        (case args of
           a # as \<Rightarrow> a @ Sprintf f as
         | [] \<Rightarrow> ''%!s(MISSING)'' @ Sprintf f [])
      else c # Sprintf (d # f) args)"

section \<open>Errors\<close>

text \<open>
  The sentinel errors of the package are values compared by identity, so each is a
  constructor of its own. \<open>wrapError msg err\<close> is what \<^verbatim>\<open>fmt.Errorf\<close> returns for a
  format with \<^verbatim>\<open>%w\<close>; \<open>OSError\<close> stands for an error of the operating system.
\<close>

datatype error =
    ErrInvalidImageFormat
  | ErrInvalidProtocol
  | ErrInsecureProtocol
  | ErrInvalidDigestFormat
  | errModelPathInvalid
  | wrapError string error
  | OSError string

fun Error :: "error \<Rightarrow> string" where
  "Error ErrInvalidImageFormat = ''invalid image format''"
| "Error ErrInvalidProtocol = ''invalid protocol scheme''"
| "Error ErrInsecureProtocol = ''insecure protocol http''"
| "Error ErrInvalidDigestFormat = ''invalid digest format''"
| "Error errModelPathInvalid = ''invalid model path''"
| "Error (wrapError msg err) = msg"
| "Error (OSError msg) = msg"

text \<open>\<^verbatim>\<open>errors.Is\<close>: the error or one it wraps is the target.\<close>

fun Is :: "error \<Rightarrow> error \<Rightarrow> bool" where
  "Is (wrapError msg err) target = (wrapError msg err = target \<or> Is err target)"
| "Is err target = (err = target)"

text \<open>\<^verbatim>\<open>fmt.Errorf\<close> with one error operand, formatted by \<^verbatim>\<open>%w\<close> as \<^verbatim>\<open>%s\<close> formats its message.\<close>

definition Errorf :: "string \<Rightarrow> error \<Rightarrow> error" where
  "Errorf format err = wrapError (Sprintf (ReplaceAll format ''%w'' ''%s'') [Error err]) err"

section \<open>The model path\<close>

record ModelPath =
  ProtocolScheme :: string
  Registry :: string
  Namespace :: string
  Repository :: string
  Tag :: string

definition DefaultRegistry :: string where
  "DefaultRegistry = ''registry.ollama.ai''"

definition DefaultNamespace :: string where
  "DefaultNamespace = ''library''"

definition DefaultTag :: string where
  "DefaultTag = ''latest''"

definition DefaultProtocolScheme :: string where
  "DefaultProtocolScheme = ''https''"

text \<open>
  \<^verbatim>\<open>os.PathSeparator\<close> is a constant of the platform the program is built for:
  \<^verbatim>\<open>'/'\<close>, or \<^verbatim>\<open>'\\'\<close> (byte 0x5C) on Windows.
\<close>

datatype GOOS = Unix | Windows

fun PathSeparator :: "GOOS \<Rightarrow> char" where
  "PathSeparator Unix = CHR ''/''"
| "PathSeparator Windows = CHR 0x5C"

definition ParseModelPath :: "GOOS \<Rightarrow> string \<Rightarrow> ModelPath" where
  "ParseModelPath os name =
     (let mp = \<lparr>ProtocolScheme = DefaultProtocolScheme,
                Registry = DefaultRegistry,
                Namespace = DefaultNamespace,
                Repository = [],
                Tag = DefaultTag\<rparr>;
          (before, after, found) = Cut name ''://'';
          mp = (if found then mp\<lparr>ProtocolScheme := before\<rparr> else mp);
          name = (if found then after else name);
          name = ReplaceAll name [PathSeparator os] ''/'';
          parts = Split name ''/'';
          mp = (if length parts = 3 then
                  mp\<lparr>Registry := parts ! 0, Namespace := parts ! 1, Repository := parts ! 2\<rparr>
                else if length parts = 2 then
                  mp\<lparr>Namespace := parts ! 0, Repository := parts ! 1\<rparr>
                else if length parts = 1 then
                  mp\<lparr>Repository := parts ! 0\<rparr>
                else mp);
          (repo, tag, found) = Cut (Repository mp) '':''
      in if found then mp\<lparr>Repository := repo, Tag := tag\<rparr> else mp)"

definition Validate :: "ModelPath \<Rightarrow> error option" where
  "Validate mp =
     (if Repository mp = [] then
        Some (Errorf ''%w: model repository name is required'' errModelPathInvalid)
      else if Contains (Tag mp) '':'' then
        Some (Errorf ''%w: ':' (colon) is not allowed in tag names'' errModelPathInvalid)
      else None)"

definition GetNamespaceRepository :: "ModelPath \<Rightarrow> string" where
  "GetNamespaceRepository mp = Sprintf ''%s/%s'' [Namespace mp, Repository mp]"

definition GetFullTagname :: "ModelPath \<Rightarrow> string" where
  "GetFullTagname mp =
     Sprintf ''%s/%s/%s:%s'' [Registry mp, Namespace mp, Repository mp, Tag mp]"

definition GetShortTagname :: "ModelPath \<Rightarrow> string" where
  "GetShortTagname mp =
     (if Registry mp = DefaultRegistry then
        (if Namespace mp = DefaultNamespace then
           Sprintf ''%s:%s'' [Repository mp, Tag mp]
         else Sprintf ''%s/%s:%s'' [Namespace mp, Repository mp, Tag mp])
      else Sprintf ''%s/%s/%s:%s'' [Registry mp, Namespace mp, Repository mp, Tag mp])"

section \<open>Regular expressions: what the digest pattern needs of package regexp\<close>

text \<open>
  The syntax tree of a pattern: the anchors \<^verbatim>\<open>^\<close> and \<^verbatim>\<open>$\<close> (without the flag \<^verbatim>\<open>m\<close>: the
  beginning and the end of the text), a literal, a character class given by its ranges,
  concatenation, and the counted repetition \<^verbatim>\<open>r{n}\<close>.
\<close>

datatype regexp =
    BeginText
  | EndText
  | Literal string
  | CharClass "(char \<times> char) list"
  | Concat regexp regexp
  | Repeat regexp nat

definition in_class :: "char \<Rightarrow> (char \<times> char) list \<Rightarrow> bool" where
  "in_class c ranges =
     list_ex (\<lambda>(lo, hi). (of_char lo :: nat) \<le> of_char c \<and> (of_char c :: nat) \<le> of_char hi) ranges"

text \<open>
  A position in the text is the pair of "nothing consumed yet" and the text that is left.
  \<open>rmatch r pos\<close> lists the positions where a match of \<open>r\<close> that starts at \<open>pos\<close> can end.
  The classes of the source's pattern hold ASCII characters only, so matching them on
  bytes and on UTF-8 runes is the same.
\<close>

primrec rmatch :: "regexp \<Rightarrow> bool \<times> string \<Rightarrow> (bool \<times> string) list" where
  "rmatch BeginText = (\<lambda>(start, s). if start then [(start, s)] else [])"
| "rmatch EndText = (\<lambda>(start, s). if s = [] then [(start, s)] else [])"
| "rmatch (Literal l) =
     (\<lambda>(start, s). if HasPrefix s l then [(start \<and> l = [], drop (length l) s)] else [])"
| "rmatch (CharClass ranges) =
     (\<lambda>(start, s). case s of
        [] \<Rightarrow> []
      | c # cs \<Rightarrow> if in_class c ranges then [(False, cs)] else [])"
| "rmatch (Concat r1 r2) = (\<lambda>pos. concat (map (rmatch r2) (rmatch r1 pos)))"
| "rmatch (Repeat r n) = (\<lambda>pos. ((\<lambda>ps. concat (map (rmatch r) ps)) ^^ n) [pos])"

text \<open>\<^verbatim>\<open>MatchString\<close>: the pattern matches somewhere in the text.\<close>

definition MatchString :: "regexp \<Rightarrow> string \<Rightarrow> bool" where
  "MatchString re s = list_ex (\<lambda>i. rmatch re (i = 0, drop i s) \<noteq> []) [0..<Suc (length s)]"

text \<open>\<^verbatim>\<open>regexp.MustCompile("^sha256[:-][0-9a-fA-F]{64}$")\<close>\<close>

definition blobDigestRegEx :: regexp where
  "blobDigestRegEx =
     Concat BeginText
       (Concat (Literal ''sha256'')
          (Concat (CharClass [(CHR '':'', CHR '':''), (CHR ''-'', CHR ''-'')])
             (Concat
                (Repeat (CharClass [(CHR ''0'', CHR ''9''), (CHR ''a'', CHR ''f''),
                                    (CHR ''A'', CHR ''F'')]) 64)
                EndText)))"

section \<open>The process environment and the file system\<close>

text \<open>
  The functions of the source read the environment and the home directory of the user, and
  call \<^verbatim>\<open>os.MkdirAll\<close>. What \<^verbatim>\<open>os.MkdirAll\<close> does on the disk (it creates the directory and
  its missing parents, or fails) is the operating system's: the world records every call, in
  order, and holds the outcome of each. A failure of the operating system is kept as its
  message; the program sees it as the error \<open>OSError\<close> of that message, which is none of the
  package's own errors.
\<close>

datatype fs_call = MkdirAll_call string nat

record world =
  environ :: "string \<Rightarrow> string option"
  home_dir :: "string + string"
  mkdir_error :: "string \<Rightarrow> string option"
  fs_calls :: "fs_call list"

definition LookupEnv :: "world \<Rightarrow> string \<Rightarrow> string option" where
  "LookupEnv w key = environ w key"

definition UserHomeDir :: "world \<Rightarrow> error + string" where
  "UserHomeDir w = (case home_dir w of Inl msg \<Rightarrow> Inl (OSError msg) | Inr home \<Rightarrow> Inr home)"

definition MkdirAll :: "string \<Rightarrow> nat \<Rightarrow> world \<Rightarrow> error option \<times> world" where
  "MkdirAll path perm w =
     (map_option OSError (mkdir_error w path),
      w\<lparr>fs_calls := fs_calls w @ [MkdirAll_call path perm]\<rparr>)"

section \<open>Paths of the model store\<close>

text \<open>
  \<^verbatim>\<open>filepath.Join\<close> belongs to the platform; the functions below take it as the parameter
  \<open>Join\<close>. \<open>unix_Join\<close> further down is the one of a platform whose separator is \<^verbatim>\<open>'/'\<close>.
\<close>

definition modelsDir :: "(string list \<Rightarrow> string) \<Rightarrow> world \<Rightarrow> error + string" where
  "modelsDir Join w =
     (case LookupEnv w ''OLLAMA_MODELS'' of
        Some models \<Rightarrow> Inr models
      | None \<Rightarrow>
          (case UserHomeDir w of
             Inl err \<Rightarrow> Inl err
           | Inr home \<Rightarrow> Inr (Join [home, ''.ollama'', ''models''])))"

text \<open>The method \<^verbatim>\<open>func (mp ModelPath) GetManifestPath() (string, error)\<close>.\<close>

definition ModelPath_GetManifestPath ::
  "(string list \<Rightarrow> string) \<Rightarrow> ModelPath \<Rightarrow> world \<Rightarrow> (error + string) \<times> world" where
  "ModelPath_GetManifestPath Join mp w =
     (case modelsDir Join w of
        Inl err \<Rightarrow> (Inl err, w)
      | Inr dir \<Rightarrow>
          (Inr (Join [dir, ''manifests'', Registry mp, Namespace mp, Repository mp, Tag mp]), w))"

text \<open>The function \<^verbatim>\<open>func GetManifestPath() (string, error)\<close>; the permission 0o755 is 493.\<close>

definition GetManifestPath ::
  "(string list \<Rightarrow> string) \<Rightarrow> world \<Rightarrow> (error + string) \<times> world" where
  "GetManifestPath Join w =
     (case modelsDir Join w of
        Inl err \<Rightarrow> (Inl err, w)
      | Inr dir \<Rightarrow>
          (let path = Join [dir, ''manifests''] in
           case MkdirAll path 493 w of
             (Some err, w') \<Rightarrow> (Inl err, w')
           | (None, w') \<Rightarrow> (Inr path, w')))"

text \<open>
  \<open>GetBlobsPath\<close>: the block on the digest either returns \<open>ErrInvalidDigestFormat\<close> at once or
  sets the path; only then is the directory asked for.
\<close>

definition GetBlobsPath ::
  "(string list \<Rightarrow> string) \<Rightarrow> string \<Rightarrow> world \<Rightarrow> (error + string) \<times> world" where
  "GetBlobsPath Join digest w =
     (case modelsDir Join w of
        Inl err \<Rightarrow> (Inl err, w)
      | Inr dir0 \<Rightarrow>
          (let dir = Join [dir0, ''blobs''];
               block =
                 (if digest \<noteq> [] then
                    (if \<not> MatchString blobDigestRegEx digest then Inl ErrInvalidDigestFormat
                     else Inr (Join [dir, ReplaceAll digest '':'' ''-'']))
                  else Inr dir)
           in case block of
                Inl err \<Rightarrow> (Inl err, w)
              | Inr path \<Rightarrow>
                  (case MkdirAll dir 493 w of
                     (Some err, w') \<Rightarrow> (Inl err, w')
                   | (None, w') \<Rightarrow> (Inr path, w'))))"

subsection \<open>\<^verbatim>\<open>filepath.Join\<close> where the separator is a slash\<close>

text \<open>
  \<^verbatim>\<open>filepath.Clean\<close>: empty elements and \<^verbatim>\<open>.\<close> go, \<^verbatim>\<open>..\<close> takes the element before it with
  it (at the root it goes alone, at the front of a relative path it stays), and the empty
  result is \<^verbatim>\<open>.\<close>. \<open>clean_step\<close> holds the elements kept so far, the last one first.
\<close>

definition clean_step :: "bool \<Rightarrow> string list \<Rightarrow> string \<Rightarrow> string list" where
  "clean_step rooted out e =
     (if e = [] \<or> e = ''.'' then out
      else if e = ''..'' then
        (case out of
           e' # rest \<Rightarrow> if e' \<noteq> ''..'' then rest else e # out
         | [] \<Rightarrow> if rooted then [] else [e])
      else e # out)"

definition unix_Clean :: "string \<Rightarrow> string" where
  "unix_Clean path =
     (if path = [] then ''.''
      else
        (let rooted = HasPrefix path ''/'';
             out = foldl (clean_step rooted) [] (Split path ''/'');
             res = (if rooted then ''/'' else []) @ strings_Join (rev out) ''/''
         in if res = [] then ''.'' else res))"

definition unix_Join :: "string list \<Rightarrow> string" where
  "unix_Join elem =
     (case dropWhile (\<lambda>e. e = []) elem of
        [] \<Rightarrow> []
      | es \<Rightarrow> unix_Clean (strings_Join es ''/''))"

subsection \<open>Two worlds to run the functions in\<close>

text \<open>
  \<open>world_override dir\<close>: the variable \<^verbatim>\<open>OLLAMA_MODELS\<close> is set to \<open>dir\<close> and the user has no
  home directory. \<open>world_home home\<close>: the variable is not set and \<^verbatim>\<open>os.UserHomeDir\<close> returns
  \<open>home\<close>. In both, no directory has been asked for yet and \<^verbatim>\<open>os.MkdirAll\<close> succeeds.
\<close>

definition world_override :: "string \<Rightarrow> world" where
  "world_override dir =
     \<lparr>environ = [''OLLAMA_MODELS'' \<mapsto> dir], home_dir = Inl ''$HOME is not defined'',
      mkdir_error = Map.empty, fs_calls = []\<rparr>"

definition world_home :: "string + string \<Rightarrow> world" where
  "world_home home =
     \<lparr>environ = Map.empty, home_dir = home, mkdir_error = Map.empty, fs_calls = []\<rparr>"

text \<open>The hexadecimal characters, in either case.\<close>

definition hex_digits :: string where
  "hex_digits = ''0123456789abcdefABCDEF''"

section \<open>Facts about the string functions\<close>

lemma HasPrefix_iff: "HasPrefix s p \<longleftrightarrow> (\<exists>a. s = p @ a)"
  unfolding HasPrefix_def
  by (metis append_eq_conv_conj append_take_drop_id le_add1 length_append)

lemma HasPrefix_drop_ex:
  "(HasPrefix d p \<and> P (drop (length p) d)) \<longleftrightarrow> (\<exists>r. d = p @ r \<and> P r)"
  by (auto simp: HasPrefix_iff)

text \<open>\<open>Index\<close> finds an instance of the separator, and the leftmost one.\<close>

lemma Index_Some_decomp:
  "Index s sep = Some i \<Longrightarrow> s = take i s @ sep @ drop (i + length sep) s"
proof (induction s arbitrary: i)
  case Nil
  then show ?case by (simp split: if_splits)
next
  case (Cons c s)
  show ?case
  proof (cases "HasPrefix (c # s) sep")
    case True
    then obtain a where "c # s = sep @ a" by (auto simp: HasPrefix_iff)
    moreover from True Cons.prems have "i = 0" by simp
    ultimately show ?thesis by simp
  next
    case False
    with Cons.prems obtain j where j: "Index s sep = Some j" "i = Suc j" by auto
    from Cons.IH [OF j(1)] j(2) show ?thesis by simp
  qed
qed

lemma Index_Some_least:
  "Index s sep = Some i \<Longrightarrow> s = b @ sep @ a \<Longrightarrow> i \<le> length b"
proof (induction s arbitrary: i b)
  case Nil
  then show ?case by (simp split: if_splits)
next
  case (Cons c s)
  show ?case
  proof (cases "HasPrefix (c # s) sep")
    case True
    with Cons.prems(1) show ?thesis by simp
  next
    case False
    with Cons.prems(1) obtain j where j: "Index s sep = Some j" "i = Suc j" by auto
    from False Cons.prems(2) have "b \<noteq> []" by (auto simp: HasPrefix_iff)
    then obtain b' where b': "b = c # b'" using Cons.prems(2) by (cases b) auto
    with Cons.prems(2) have "s = b' @ sep @ a" by simp
    from Cons.IH [OF j(1) this] j(2) b' show ?thesis by simp
  qed
qed

lemma Index_None_no_instance: "Index s sep = None \<Longrightarrow> s \<noteq> b @ sep @ a"
proof (induction s arbitrary: b)
  case Nil
  then show ?case by (auto split: if_splits)
next
  case (Cons c s)
  from Cons.prems have np: "\<not> HasPrefix (c # s) sep" and n: "Index s sep = None"
    by (auto split: if_splits)
  show ?case
  proof
    assume eq: "c # s = b @ sep @ a"
    with np have "b \<noteq> []" by (auto simp: HasPrefix_iff)
    then obtain b' where "b = c # b'" using eq by (cases b) auto
    with eq have "s = b' @ sep @ a" by simp
    with Cons.IH [OF n] show False by blast
  qed
qed

lemma Index_None_iff: "Index s sep = None \<longleftrightarrow> (\<forall>b a. s \<noteq> b @ sep @ a)"
proof
  assume "Index s sep = None"
  then show "\<forall>b a. s \<noteq> b @ sep @ a" by (simp add: Index_None_no_instance)
next
  assume no: "\<forall>b a. s \<noteq> b @ sep @ a"
  show "Index s sep = None"
  proof (cases "Index s sep")
    case None
    then show ?thesis .
  next
    case (Some i)
    from Index_Some_decomp [OF this] no show ?thesis by blast
  qed
qed

lemma Index_char_None_iff: "Index s [c] = None \<longleftrightarrow> c \<notin> set s"
  by (induction s) (auto simp: HasPrefix_def)

lemma Index_char_absent: "c \<notin> set s \<Longrightarrow> Index s [c] = None"
  by (simp add: Index_char_None_iff)

lemma Index_char_Some:
  "Index s [c] = Some i \<Longrightarrow> i < length s \<and> s ! i = c \<and> c \<notin> set (take i s)"
proof (induction s arbitrary: i)
  case Nil
  then show ?case by simp
next
  case (Cons x s)
  then show ?case by (auto simp: HasPrefix_def split: if_splits)
qed

lemma Index_char_first: "c \<notin> set p \<Longrightarrow> Index (p @ c # r) [c] = Some (length p)"
  by (induction p) (auto simp: HasPrefix_def)

lemma Contains_char: "Contains s [c] \<longleftrightarrow> c \<in> set s"
  by (simp add: Contains_def Index_char_None_iff)

text \<open>\<open>Cut\<close> either splits at the leftmost instance or reports that there is none.\<close>

lemma Cut_cases:
  obtains (found) b a where "Cut s sep = (b, a, True)" "s = b @ sep @ a"
      "\<And>b' a'. s = b' @ sep @ a' \<Longrightarrow> length b \<le> length b'"
  | (absent) "Cut s sep = (s, [], False)" "\<And>b a. s \<noteq> b @ sep @ a"
proof (cases "Index s sep")
  case None
  then have "Cut s sep = (s, [], False)" by (simp add: Cut_def)
  moreover from None have "\<And>b a. s \<noteq> b @ sep @ a" by (simp add: Index_None_iff)
  ultimately show ?thesis by (rule absent)
next
  case (Some i)
  then have c: "Cut s sep = (take i s, drop (i + length sep) s, True)" by (simp add: Cut_def)
  have d: "s = take i s @ sep @ drop (i + length sep) s" by (rule Index_Some_decomp [OF Some])
  have "i \<le> length s" using Index_bound [OF Some] by simp
  then have l: "length (take i s) = i" by simp
  have "\<And>b' a'. s = b' @ sep @ a' \<Longrightarrow> length (take i s) \<le> length b'"
    using Index_Some_least [OF Some] l by simp
  with c d show ?thesis by (rule found)
qed

lemma Cut_char_notin: "c \<notin> set s \<Longrightarrow> Cut s [c] = (s, [], False)"
  by (simp add: Cut_def Index_char_absent)

lemma Cut_char_first: "c \<notin> set r \<Longrightarrow> Cut (r @ c # t) [c] = (r, t, True)"
  by (simp add: Cut_def Index_char_first)

lemma ReplaceAll_char_char:
  "ReplaceAll s [c] [d] = map (\<lambda>x. if x = c then d else x) s"
  by (induction s) (auto simp: HasPrefix_def)

text \<open>
  Splitting on one character: the parts are free of it, joining them gives the string back,
  and they are the only such list.
\<close>

lemma Split_char_notin: "c \<notin> set s \<Longrightarrow> Split s [c] = [s]"
  by (simp add: Split.simps Index_char_absent)

lemma Split_char_first: "c \<notin> set p \<Longrightarrow> Split (p @ c # r) [c] = p # Split r [c]"
  by (simp add: Split.simps [of "p @ c # r"] Index_char_first)

lemma Split_char_Join:
  "ps \<noteq> [] \<Longrightarrow> \<forall>p\<in>set ps. c \<notin> set p \<Longrightarrow> Split (strings_Join ps [c]) [c] = ps"
proof (induction ps)
  case Nil
  then show ?case by simp
next
  case (Cons p ps)
  show ?case
  proof (cases ps)
    case Nil
    with Cons.prems show ?thesis by (simp add: Split_char_notin)
  next
    case (Cons q qs)
    with Cons.prems Cons.IH have "Split (strings_Join ps [c]) [c] = ps" by simp
    moreover from Cons have "strings_Join (p # ps) [c] = p @ c # strings_Join ps [c]" by simp
    moreover from Cons.prems have "c \<notin> set p" by simp
    ultimately show ?thesis by (simp add: Split_char_first)
  qed
qed

lemma Split_char_props:
  "Split s [c] \<noteq> [] \<and> (\<forall>p\<in>set (Split s [c]). c \<notin> set p) \<and> strings_Join (Split s [c]) [c] = s"
proof (induction s "[c]" rule: Split.induct)
  case (1 s)
  show ?case
  proof (cases "Index s [c]")
    case None
    then have "c \<notin> set s" by (simp add: Index_char_None_iff)
    then show ?thesis by (simp add: Split_char_notin)
  next
    case (Some i)
    have d: "s = take i s @ c # drop (Suc i) s" using Index_Some_decomp [OF Some] by simp
    have n: "c \<notin> set (take i s)" using Index_char_Some [OF Some] by simp
    have sp: "Split s [c] = take i s # Split (drop (Suc i) s) [c]"
      using Some by (simp add: Split.simps [of s])
    from 1 [OF _ Some] have IH: "Split (drop (Suc i) s) [c] \<noteq> []"
      "\<forall>p\<in>set (Split (drop (Suc i) s) [c]). c \<notin> set p"
      "strings_Join (Split (drop (Suc i) s) [c]) [c] = drop (Suc i) s"
      by simp_all
    from IH(1) obtain q qs where q: "Split (drop (Suc i) s) [c] = q # qs"
      by (cases "Split (drop (Suc i) s) [c]") auto
    have "strings_Join (Split s [c]) [c] = take i s @ c # drop (Suc i) s"
      using sp q IH(3) by simp
    with d have "strings_Join (Split s [c]) [c] = s" by simp
    with sp n IH(2) show ?thesis by simp
  qed
qed

lemma Sprintf_2: "Sprintf ''%s:%s'' [a, b] = a @ '':'' @ b"
  by simp

lemma Sprintf_3: "Sprintf ''%s/%s:%s'' [a, b, c] = a @ ''/'' @ b @ '':'' @ c"
  by simp

lemma Sprintf_4: "Sprintf ''%s/%s/%s:%s'' [a, b, c, d] = a @ ''/'' @ b @ ''/'' @ c @ '':'' @ d"
  by simp

lemma Errorf_repository:
  "Errorf ''%w: model repository name is required'' errModelPathInvalid =
     wrapError ''invalid model path: model repository name is required'' errModelPathInvalid"
  by (simp add: Errorf_def HasPrefix_def)

lemma Errorf_colon:
  "Errorf ''%w: ':' (colon) is not allowed in tag names'' errModelPathInvalid =
     wrapError ''invalid model path: ':' (colon) is not allowed in tag names'' errModelPathInvalid"
  by (simp add: Errorf_def HasPrefix_def)

section \<open>What the digest pattern matches\<close>

lemma rmatch_Repeat_Suc:
  "rmatch (Repeat r (Suc n)) pos = concat (map (rmatch r) (rmatch (Repeat r n) pos))"
  by simp

lemma rmatch_Repeat_CharClass:
  "rmatch (Repeat (CharClass rs) n) (b, s) =
     (if n \<le> length s \<and> (\<forall>c\<in>set (take n s). in_class c rs)
      then [(b \<and> n = 0, drop n s)] else [])"
proof (induction n)
  case 0
  then show ?case by simp
next
  case (Suc n)
  show ?case
  proof (cases "n < length s")
    case True
    then have d: "drop n s = s ! n # drop (Suc n) s" and t: "take (Suc n) s = take n s @ [s ! n]"
      by (simp_all add: Cons_nth_drop_Suc take_Suc_conv_app_nth)
    from True have le: "n \<le> length s" "Suc n \<le> length s" by simp_all
    show ?thesis
      unfolding rmatch_Repeat_Suc Suc.IH
      using le by (auto simp: d t)
  next
    case False
    then have "drop n s = []" "\<not> Suc n \<le> length s" by simp_all
    then show ?thesis
      unfolding rmatch_Repeat_Suc Suc.IH by auto
  qed
qed

lemma in_class_hex_imp:
  assumes "in_class c [(CHR ''0'', CHR ''9''), (CHR ''a'', CHR ''f''), (CHR ''A'', CHR ''F'')]"
  shows "c \<in> set hex_digits"
proof -
  define n :: nat where "n = of_char c"
  from assms have "48 \<le> n \<and> n \<le> 57 \<or> 97 \<le> n \<and> n \<le> 102 \<or> 65 \<le> n \<and> n \<le> 70"
    by (simp add: in_class_def n_def)
  then have "n = 48 \<or> n = 49 \<or> n = 50 \<or> n = 51 \<or> n = 52 \<or> n = 53 \<or> n = 54 \<or> n = 55
      \<or> n = 56 \<or> n = 57 \<or> n = 97 \<or> n = 98 \<or> n = 99 \<or> n = 100 \<or> n = 101 \<or> n = 102
      \<or> n = 65 \<or> n = 66 \<or> n = 67 \<or> n = 68 \<or> n = 69 \<or> n = 70"
    by arith
  then have "n \<in> of_char ` set hex_digits"
    unfolding hex_digits_def by simp
  then obtain d where "d \<in> set hex_digits" "(of_char c :: nat) = of_char d"
    unfolding n_def by blast
  then show ?thesis by simp
qed

lemma in_class_hex_conv:
  assumes "c \<in> set hex_digits"
  shows "in_class c [(CHR ''0'', CHR ''9''), (CHR ''a'', CHR ''f''), (CHR ''A'', CHR ''F'')]"
  using assms unfolding hex_digits_def in_class_def by auto

lemma in_class_sep:
  "in_class c [(CHR '':'', CHR '':''), (CHR ''-'', CHR ''-'')] \<longleftrightarrow> c = CHR '':'' \<or> c = CHR ''-''"
proof -
  have "(of_char c :: nat) = of_char (CHR '':'') \<longleftrightarrow> c = CHR '':''"
    and "(of_char c :: nat) = of_char (CHR ''-'') \<longleftrightarrow> c = CHR ''-''"
    by (rule of_char_eq_iff)+
  then show ?thesis by (auto simp: in_class_def)
qed

lemma MatchString_iff:
  "MatchString re s \<longleftrightarrow> (\<exists>i\<le>length s. rmatch re (i = 0, drop i s) \<noteq> [])"
  by (simp add: MatchString_def list_ex_iff del: upt_Suc) (auto simp: less_Suc_eq_le)

lemma rmatch_BeginText_Concat:
  "rmatch (Concat BeginText r) (b, s) = (if b then rmatch r (b, s) else [])"
  by simp

lemma MatchString_anchored:
  "MatchString (Concat BeginText r) s \<longleftrightarrow> rmatch r (True, s) \<noteq> []"
  unfolding MatchString_iff rmatch_BeginText_Concat by auto

lemma rmatch_Literal_Concat:
  "rmatch (Concat (Literal l) r) (b, s) =
     (if HasPrefix s l then rmatch r (b \<and> l = [], drop (length l) s) else [])"
  by simp

lemma rmatch_CharClass_Concat:
  "rmatch (Concat (CharClass rs) r) (b, s) =
     (case s of [] \<Rightarrow> [] | c # cs \<Rightarrow> if in_class c rs then rmatch r (False, cs) else [])"
  by (simp split: list.split)

lemma rmatch_Repeat_EndText:
  "rmatch (Concat (Repeat (CharClass rs) n) EndText) (b, s) \<noteq> [] \<longleftrightarrow>
     length s = n \<and> (\<forall>c\<in>set s. in_class c rs)"
proof -
  have "rmatch (Concat (Repeat (CharClass rs) n) EndText) (b, s) =
      concat (map (rmatch EndText) (rmatch (Repeat (CharClass rs) n) (b, s)))"
    by simp
  then show ?thesis
    unfolding rmatch_Repeat_CharClass by (auto simp: le_antisym)
qed

lemma rmatch_digest_tail:
  "rmatch (Concat (CharClass seps) (Concat (Repeat (CharClass hexs) n) EndText)) (b, r) \<noteq> [] \<longleftrightarrow>
     (\<exists>sep hex. r = sep # hex \<and> in_class sep seps \<and> length hex = n \<and>
        (\<forall>x\<in>set hex. in_class x hexs))"
  unfolding rmatch_CharClass_Concat
  by (cases r) (simp_all add: rmatch_Repeat_EndText del: rmatch.simps)

lemma MatchString_blobDigestRegEx:
  "MatchString blobDigestRegEx d \<longleftrightarrow>
     (\<exists>sep hex. d = ''sha256'' @ sep # hex \<and> (sep = CHR '':'' \<or> sep = CHR ''-'') \<and>
        length hex = 64 \<and> set hex \<subseteq> set hex_digits)"
  (is "?L \<longleftrightarrow> ?R")
proof -
  let ?hexcls = "[(CHR ''0'', CHR ''9''), (CHR ''a'', CHR ''f''), (CHR ''A'', CHR ''F'')]"
  let ?sepcls = "[(CHR '':'', CHR '':''), (CHR ''-'', CHR ''-'')]"
  let ?tail = "Concat (CharClass ?sepcls) (Concat (Repeat (CharClass ?hexcls) 64) EndText)"
  have "?L \<longleftrightarrow> HasPrefix d ''sha256'' \<and> rmatch ?tail (False, drop (length ''sha256'') d) \<noteq> []"
    unfolding blobDigestRegEx_def MatchString_anchored rmatch_Literal_Concat
    by (simp del: rmatch.simps)
  also have "\<dots> \<longleftrightarrow> (\<exists>r. d = ''sha256'' @ r \<and> rmatch ?tail (False, r) \<noteq> [])"
    by (rule HasPrefix_drop_ex [of d "''sha256''" "\<lambda>r. rmatch ?tail (False, r) \<noteq> []"])
  finally have L: "?L \<longleftrightarrow> (\<exists>r. d = ''sha256'' @ r \<and> rmatch ?tail (False, r) \<noteq> [])" .
  have T: "rmatch ?tail (False, r) \<noteq> [] \<longleftrightarrow>
      (\<exists>sep hex. r = sep # hex \<and> (sep = CHR '':'' \<or> sep = CHR ''-'') \<and>
        length hex = 64 \<and> set hex \<subseteq> set hex_digits)" for r
    unfolding rmatch_digest_tail in_class_sep
    using in_class_hex_imp in_class_hex_conv by (metis subset_code(1))
  show ?thesis
    unfolding L T by blast
qed

lemma ReplaceAll_digest:
  assumes "sep = CHR '':'' \<or> sep = CHR ''-''" and "set hex \<subseteq> set hex_digits"
  shows "ReplaceAll (''sha256'' @ sep # hex) '':'' ''-'' = ''sha256-'' @ hex"
proof -
  have "CHR '':'' \<notin> set hex_digits" by (simp add: hex_digits_def)
  with assms(2) have "CHR '':'' \<notin> set hex" by blast
  then have "map (\<lambda>x. if x = CHR '':'' then CHR ''-'' else x) hex = hex"
    by (intro map_idI) auto
  with assms(1) show ?thesis by (auto simp: ReplaceAll_char_char)
qed

section \<open>Facts about the parser\<close>

text \<open>The parser with its local variables named.\<close>

lemma ParseModelPath_unfold:
  assumes "Cut name ''://'' = (before, after, found)"
    and "parts = Split (ReplaceAll (if found then after else name) [PathSeparator os] ''/'') ''/''"
    and "seg = (if length parts = 3 then parts ! 2 else if length parts = 2 then parts ! 1
                else if length parts = 1 then parts ! 0 else [])"
    and "Cut seg '':'' = (repo, tag, found')"
  shows "ParseModelPath os name =
     \<lparr>ProtocolScheme = (if found then before else DefaultProtocolScheme),
      Registry = (if length parts = 3 then parts ! 0 else DefaultRegistry),
      Namespace = (if length parts = 3 then parts ! 1
                   else if length parts = 2 then parts ! 0 else DefaultNamespace),
      Repository = (if found' then repo else seg),
      Tag = (if found' then tag else DefaultTag)\<rparr>"
  using assms(1,4) unfolding assms(3) assms(2) ParseModelPath_def Let_def
  by (cases found) (auto split: prod.splits)

lemma Cut_char_cases:
  obtains (colon) r t where "s = r @ c # t" "c \<notin> set r" "Cut s [c] = (r, t, True)"
  | (plain) "c \<notin> set s" "Cut s [c] = (s, [], False)"
proof (cases "c \<in> set s")
  case True
  then obtain r t where "s = r @ c # t" "c \<notin> set r" by (auto dest: split_list_first)
  then show ?thesis using colon Cut_char_first by blast
next
  case False
  then show ?thesis using plain Cut_char_notin by blast
qed

lemma ParseModelPath_cases:
  fixes os :: GOOS and name :: string
  defines "mp \<equiv> ParseModelPath os name"
  obtains rest parts seg where
    "if (\<exists>b a. name = b @ ''://'' @ a)
      then name = ProtocolScheme mp @ ''://'' @ rest \<and>
           (\<forall>b a. name = b @ ''://'' @ a \<longrightarrow> length (ProtocolScheme mp) \<le> length b)
      else ProtocolScheme mp = DefaultProtocolScheme \<and> rest = name"
    "parts \<noteq> []" "\<forall>p\<in>set parts. CHR ''/'' \<notin> set p"
    "strings_Join parts ''/'' = map (\<lambda>c. if c = PathSeparator os then CHR ''/'' else c) rest"
    "\<forall>r n p. parts = [r, n, p] \<longrightarrow> Registry mp = r \<and> Namespace mp = n \<and> seg = p"
    "\<forall>n p. parts = [n, p] \<longrightarrow> Registry mp = DefaultRegistry \<and> Namespace mp = n \<and> seg = p"
    "\<forall>p. parts = [p] \<longrightarrow>
        Registry mp = DefaultRegistry \<and> Namespace mp = DefaultNamespace \<and> seg = p"
    "3 < length parts \<longrightarrow>
        Registry mp = DefaultRegistry \<and> Namespace mp = DefaultNamespace \<and> seg = []"
    "if CHR '':'' \<in> set seg
      then seg = Repository mp @ '':'' @ Tag mp \<and> CHR '':'' \<notin> set (Repository mp)
      else Repository mp = seg \<and> Tag mp = DefaultTag"
proof -
  obtain before after found where c1: "Cut name ''://'' = (before, after, found)"
    by (cases "Cut name ''://''") auto
  define rest where "rest = (if found then after else name)"
  define parts where "parts = Split (ReplaceAll rest [PathSeparator os] ''/'') ''/''"
  define seg where "seg = (if length parts = 3 then parts ! 2 else if length parts = 2 then parts ! 1
                else if length parts = 1 then parts ! 0 else [])"
  obtain repo tag found' where c2: "Cut seg '':'' = (repo, tag, found')"
    by (cases "Cut seg '':''") auto
  have mp: "mp =
     \<lparr>ProtocolScheme = (if found then before else DefaultProtocolScheme),
      Registry = (if length parts = 3 then parts ! 0 else DefaultRegistry),
      Namespace = (if length parts = 3 then parts ! 1
                   else if length parts = 2 then parts ! 0 else DefaultNamespace),
      Repository = (if found' then repo else seg),
      Tag = (if found' then tag else DefaultTag)\<rparr>"
    unfolding mp_def
    by (rule ParseModelPath_unfold [OF c1 _ _ c2]) (simp_all add: parts_def rest_def seg_def)
  have scheme: "if (\<exists>b a. name = b @ ''://'' @ a)
      then name = ProtocolScheme mp @ ''://'' @ rest \<and>
           (\<forall>b a. name = b @ ''://'' @ a \<longrightarrow> length (ProtocolScheme mp) \<le> length b)
      else ProtocolScheme mp = DefaultProtocolScheme \<and> rest = name"
  proof (cases name "''://''" rule: Cut_cases)
    case (found b a)
    with c1 have "before = b" "after = a" "found" by simp_all
    with found(2,3) show ?thesis unfolding mp rest_def by auto
  next
    case absent
    with c1 have "\<not> found" by simp
    with absent(2) show ?thesis unfolding mp rest_def by auto
  qed
  have "ReplaceAll rest [PathSeparator os] ''/'' =
      map (\<lambda>c. if c = PathSeparator os then CHR ''/'' else c) rest"
    by (rule ReplaceAll_char_char)
  with Split_char_props [of "ReplaceAll rest [PathSeparator os] ''/''" "CHR ''/''"]
  have segments: "parts \<noteq> []" "\<forall>p\<in>set parts. CHR ''/'' \<notin> set p"
    "strings_Join parts ''/'' = map (\<lambda>c. if c = PathSeparator os then CHR ''/'' else c) rest"
    unfolding parts_def by simp_all
  have assign: "\<forall>r n p. parts = [r, n, p] \<longrightarrow> Registry mp = r \<and> Namespace mp = n \<and> seg = p"
    "\<forall>n p. parts = [n, p] \<longrightarrow> Registry mp = DefaultRegistry \<and> Namespace mp = n \<and> seg = p"
    "\<forall>p. parts = [p] \<longrightarrow>
        Registry mp = DefaultRegistry \<and> Namespace mp = DefaultNamespace \<and> seg = p"
    "3 < length parts \<longrightarrow>
        Registry mp = DefaultRegistry \<and> Namespace mp = DefaultNamespace \<and> seg = []"
    unfolding mp seg_def by auto
  have tag: "if CHR '':'' \<in> set seg
      then seg = Repository mp @ '':'' @ Tag mp \<and> CHR '':'' \<notin> set (Repository mp)
      else Repository mp = seg \<and> Tag mp = DefaultTag"
  proof (cases seg "CHR '':''" rule: Cut_char_cases)
    case (colon r t)
    with c2 have "repo = r" "tag = t" "found'" by simp_all
    with colon(1,2) show ?thesis unfolding mp by simp
  next
    case plain
    with c2 have "\<not> found'" by simp
    with plain(1) show ?thesis unfolding mp by simp
  qed
  from scheme segments assign tag show ?thesis by (rule that)
qed

lemma strings_Join_set: "p \<in> set ps \<Longrightarrow> set p \<subseteq> set (strings_Join ps sep)"
  by (induction ps sep rule: strings_Join.induct) auto

lemma Cut_absent: "(\<And>b a. s \<noteq> b @ sep @ a) \<Longrightarrow> Cut s sep = (s, [], False)"
  by (cases s sep rule: Cut_cases) auto

lemma PathSeparator_not_colon: "PathSeparator os \<noteq> CHR '':''"
  by (cases os) simp_all

lemma DefaultTag_plain: "CHR ''/'' \<notin> set DefaultTag" "PathSeparator os \<notin> set DefaultTag"
  by (cases os; simp add: DefaultTag_def)+

text \<open>The repository and the tag that come out of the parser.\<close>

lemma ParseModelPath_fields_plain:
  fixes os :: GOOS and name :: string
  defines "mp \<equiv> ParseModelPath os name"
  shows "CHR '':'' \<notin> set (Repository mp)"
    and "CHR ''/'' \<notin> set (Repository mp)" and "CHR ''/'' \<notin> set (Tag mp)"
    and "PathSeparator os \<notin> set (Repository mp)" and "PathSeparator os \<notin> set (Tag mp)"
proof -
  obtain rest parts seg where
    parts: "parts \<noteq> []" "\<forall>p\<in>set parts. CHR ''/'' \<notin> set p"
    and join: "strings_Join parts ''/'' =
      map (\<lambda>c. if c = PathSeparator os then CHR ''/'' else c) rest"
    and a3: "\<forall>r n p. parts = [r, n, p] \<longrightarrow> Registry mp = r \<and> Namespace mp = n \<and> seg = p"
    and a2: "\<forall>n p. parts = [n, p] \<longrightarrow> Registry mp = DefaultRegistry \<and> Namespace mp = n \<and> seg = p"
    and a1: "\<forall>p. parts = [p] \<longrightarrow>
        Registry mp = DefaultRegistry \<and> Namespace mp = DefaultNamespace \<and> seg = p"
    and a4: "3 < length parts \<longrightarrow>
        Registry mp = DefaultRegistry \<and> Namespace mp = DefaultNamespace \<and> seg = []"
    and tag: "if CHR '':'' \<in> set seg
      then seg = Repository mp @ '':'' @ Tag mp \<and> CHR '':'' \<notin> set (Repository mp)
      else Repository mp = seg \<and> Tag mp = DefaultTag"
    unfolding mp_def by (rule ParseModelPath_cases)
  have seg: "seg = [] \<or> seg \<in> set parts"
  proof (cases parts)
    case Nil
    with parts(1) show ?thesis by simp
  next
    case (Cons p0 ps0)
    show ?thesis
    proof (cases ps0)
      case Nil
      with Cons a1 show ?thesis by simp
    next
      case (Cons p1 ps1)
      note c1 = this
      show ?thesis
      proof (cases ps1)
        case Nil
        with \<open>parts = p0 # ps0\<close> c1 a2 show ?thesis by simp
      next
        case (Cons p2 ps2)
        show ?thesis
        proof (cases ps2)
          case Nil
          with \<open>parts = p0 # ps0\<close> c1 Cons a3 show ?thesis by simp
        next
          case (Cons p3 ps3)
          with \<open>parts = p0 # ps0\<close> c1 \<open>ps1 = p2 # ps2\<close> a4 show ?thesis by simp
        qed
      qed
    qed
  qed
  have slash: "CHR ''/'' \<notin> set seg" using seg parts(2) by auto
  have sep: "PathSeparator os \<notin> set seg"
  proof (cases "PathSeparator os = CHR ''/''")
    case True
    with slash show ?thesis by simp
  next
    case False
    then have "PathSeparator os \<notin> set (map (\<lambda>c. if c = PathSeparator os then CHR ''/'' else c) rest)"
      by auto
    with join have "PathSeparator os \<notin> set (strings_Join parts ''/'')" by simp
    with seg strings_Join_set [of seg parts "''/''"] show ?thesis by auto
  qed
  have sub: "set (Repository mp) \<subseteq> set seg"
    "set (Tag mp) \<subseteq> set seg \<or> Tag mp = DefaultTag"
    using tag by (auto split: if_splits)
  show "CHR '':'' \<notin> set (Repository mp)" using tag by (auto split: if_splits)
  show "CHR ''/'' \<notin> set (Repository mp)" using sub(1) slash by blast
  show "CHR ''/'' \<notin> set (Tag mp)" using sub(2) slash DefaultTag_plain(1) by auto
  show "PathSeparator os \<notin> set (Repository mp)" using sub(1) sep by blast
  show "PathSeparator os \<notin> set (Tag mp)" using sub(2) sep DefaultTag_plain(2) by auto
qed

lemma ParseModelPath_plain:
  assumes "CHR '':'' \<notin> set repo" and "CHR ''/'' \<notin> set repo" and "CHR ''/'' \<notin> set tag"
    and "PathSeparator os \<notin> set repo" and "PathSeparator os \<notin> set tag"
  shows "ParseModelPath os (repo @ '':'' @ tag) =
     \<lparr>ProtocolScheme = DefaultProtocolScheme, Registry = DefaultRegistry,
      Namespace = DefaultNamespace, Repository = repo, Tag = tag\<rparr>"
proof -
  define t where "t = repo @ '':'' @ tag"
  have slash: "CHR ''/'' \<notin> set t" using assms(2,3) by (simp add: t_def)
  have sep: "PathSeparator os \<notin> set t"
    using assms(4,5) PathSeparator_not_colon by (simp add: t_def)
  have "t \<noteq> b @ ''://'' @ a" for b a
  proof
    assume "t = b @ ''://'' @ a"
    then have "CHR ''/'' \<in> set t" by simp
    with slash show False by blast
  qed
  then have c1: "Cut t ''://'' = (t, [], False)" by (rule Cut_absent)
  have "map (\<lambda>c. if c = PathSeparator os then CHR ''/'' else c) t = t"
    using sep by (intro map_idI) auto
  then have r: "ReplaceAll t [PathSeparator os] ''/'' = t"
    by (simp only: ReplaceAll_char_char)
  have p: "Split t ''/'' = [t]" using slash by (rule Split_char_notin)
  have c2: "Cut t '':'' = (repo, tag, True)"
    using Cut_char_first [OF assms(1), of tag] by (simp add: t_def)
  define parts where "parts = [t]"
  have e2: "parts = Split (ReplaceAll (if False then [] else t) [PathSeparator os] ''/'') ''/''"
    by (simp add: r p parts_def)
  have e3: "t = (if length parts = 3 then parts ! 2 else if length parts = 2 then parts ! 1
                else if length parts = 1 then parts ! 0 else [])"
    by (simp add: parts_def)
  from ParseModelPath_unfold [OF c1 e2 e3 c2] show ?thesis
    by (simp add: parts_def t_def)
qed

lemma modelsDir_world_override: "modelsDir Join (world_override dir) = Inr dir"
  by (simp add: modelsDir_def LookupEnv_def world_override_def)

section \<open>The model store root\<close>

text \<open>
  Claim C9. \<open>modelsDir\<close> returns the value of the variable \<^verbatim>\<open>OLLAMA_MODELS\<close> when it is set
  (also when it is set to the empty string). When it is not set, the home directory of the
  user is resolved and the two elements \<^verbatim>\<open>.ollama\<close> and \<^verbatim>\<open>models\<close> are joined under it; when
  the home directory cannot be resolved, that error is the result and nothing else is tried.
\<close>

theorem modelsDir_lookup:
  "(environ w ''OLLAMA_MODELS'' = Some models \<longrightarrow> modelsDir Join w = Inr models) \<and>
   (environ w ''OLLAMA_MODELS'' = None \<longrightarrow> home_dir w = Inr home \<longrightarrow>
      modelsDir Join w = Inr (Join [home, ''.ollama'', ''models''])) \<and>
   (environ w ''OLLAMA_MODELS'' = None \<longrightarrow> home_dir w = Inl msg \<longrightarrow>
      modelsDir Join w = Inl (OSError msg))"
  by (simp add: modelsDir_def LookupEnv_def UserHomeDir_def)

theorem modelsDir_lookup_witness:
  "modelsDir unix_Join (world_override ''/srv/models'') = Inr ''/srv/models'' \<and>
   modelsDir unix_Join (world_home (Inr ''/home/user'')) = Inr ''/home/user/.ollama/models'' \<and>
   modelsDir unix_Join (world_home (Inl ''$HOME is not defined'')) =
     Inl (OSError ''$HOME is not defined'')"
proof -
  have j: "unix_Join [''/home/user'', ''.ollama'', ''models''] = ''/home/user/.ollama/models''"
    by code_simp
  have "modelsDir unix_Join (world_override ''/srv/models'') = Inr ''/srv/models''"
    using modelsDir_lookup [where w = "world_override ''/srv/models''"
        and models = "''/srv/models''" and Join = unix_Join]
    by (simp add: world_override_def)
  moreover have "modelsDir unix_Join (world_home (Inr ''/home/user'')) =
      Inr ''/home/user/.ollama/models''"
    using modelsDir_lookup [where w = "world_home (Inr ''/home/user'')" and Join = unix_Join
        and home = "''/home/user''"] j
    by (simp add: world_home_def)
  moreover have "modelsDir unix_Join (world_home (Inl ''$HOME is not defined'')) =
      Inl (OSError ''$HOME is not defined'')"
    using modelsDir_lookup [where w = "world_home (Inl ''$HOME is not defined'')"
        and Join = unix_Join and msg = "''$HOME is not defined''"]
    by (simp add: world_home_def)
  ultimately show ?thesis by blast
qed

section \<open>Manifest paths\<close>

text \<open>
  Claim C8. When the store root resolves to \<open>root\<close>, the method returns the join of \<open>root\<close>,
  \<^verbatim>\<open>manifests\<close>, registry, namespace, repository and tag, and leaves the world as it was: it
  asks for no directory. The function of the package returns the join of \<open>root\<close> and
  \<^verbatim>\<open>manifests\<close> after one call of \<^verbatim>\<open>os.MkdirAll\<close> on that path with permission 0o755 (or the
  error of that call), and that call is all it does to the world. When the store root does
  not resolve, both return the error and touch nothing.
\<close>

theorem manifest_paths:
  "(case modelsDir Join w of
      Inl err \<Rightarrow>
        ModelPath_GetManifestPath Join mp w = (Inl err, w) \<and>
        GetManifestPath Join w = (Inl err, w)
    | Inr root \<Rightarrow>
        ModelPath_GetManifestPath Join mp w =
          (Inr (Join [root, ''manifests'', Registry mp, Namespace mp, Repository mp, Tag mp]), w) \<and>
        GetManifestPath Join w =
          (case mkdir_error w (Join [root, ''manifests'']) of
             None \<Rightarrow> Inr (Join [root, ''manifests''])
           | Some msg \<Rightarrow> Inl (OSError msg),
           w\<lparr>fs_calls := fs_calls w @ [MkdirAll_call (Join [root, ''manifests'']) 493]\<rparr>))"
  by (simp add: ModelPath_GetManifestPath_def GetManifestPath_def MkdirAll_def Let_def
      split: sum.split option.split)

theorem manifest_paths_witness:
  "ModelPath_GetManifestPath unix_Join
     \<lparr>ProtocolScheme = ''https'', Registry = ''example.com'', Namespace = ''ns'',
      Repository = ''repo'', Tag = ''v1''\<rparr> (world_override ''/srv/models'') =
     (Inr ''/srv/models/manifests/example.com/ns/repo/v1'', world_override ''/srv/models'') \<and>
   GetManifestPath unix_Join (world_override ''/srv/models'') =
     (Inr ''/srv/models/manifests'',
      (world_override ''/srv/models'')\<lparr>fs_calls := [MkdirAll_call ''/srv/models/manifests'' 493]\<rparr>)"
proof -
  have j: "unix_Join [''/srv/models'', ''manifests'', ''example.com'', ''ns'', ''repo'', ''v1''] =
      ''/srv/models/manifests/example.com/ns/repo/v1''"
    "unix_Join [''/srv/models'', ''manifests''] = ''/srv/models/manifests''"
    by code_simp+
  have e: "mkdir_error (world_override ''/srv/models'') p = None"
    "fs_calls (world_override ''/srv/models'') = []" for p
    by (simp_all add: world_override_def)
  show ?thesis
    using manifest_paths [where Join = unix_Join and w = "world_override ''/srv/models''"
        and mp = "\<lparr>ProtocolScheme = ''https'', Registry = ''example.com'', Namespace = ''ns'',
          Repository = ''repo'', Tag = ''v1''\<rparr>"]
    by (simp add: modelsDir_world_override j e)
qed

section \<open>Blob paths\<close>

text \<open>
  Claim C1, as the source has it. The digest is validated before the directory is asked
  for. When the store root resolves, a non-empty digest that fails the pattern makes
  \<open>GetBlobsPath\<close> return \<open>ErrInvalidDigestFormat\<close> with the world untouched: no call of
  \<^verbatim>\<open>os.MkdirAll\<close> is made, so the blobs directory is not created. For the empty digest and for
  a digest that matches, the one call of \<^verbatim>\<open>os.MkdirAll\<close> on the blobs directory is all the
  function does to the world.
\<close>

theorem GetBlobsPath_validates_before_mkdir:
  assumes "modelsDir Join w = Inr root"
  shows "(digest \<noteq> [] \<and> \<not> MatchString blobDigestRegEx digest \<longrightarrow>
            GetBlobsPath Join digest w = (Inl ErrInvalidDigestFormat, w)) \<and>
         (digest = [] \<or> MatchString blobDigestRegEx digest \<longrightarrow>
            snd (GetBlobsPath Join digest w) =
              w\<lparr>fs_calls := fs_calls w @ [MkdirAll_call (Join [root, ''blobs'']) 493]\<rparr>)"
  using assms
  by (auto simp: GetBlobsPath_def MkdirAll_def Let_def split: option.split)

theorem GetBlobsPath_validates_before_mkdir_witness:
  "GetBlobsPath unix_Join ''sha256:xyz'' (world_override ''/srv/models'') =
     (Inl ErrInvalidDigestFormat, world_override ''/srv/models'') \<and>
   snd (GetBlobsPath unix_Join [] (world_override ''/srv/models'')) =
     (world_override ''/srv/models'')\<lparr>fs_calls := [MkdirAll_call ''/srv/models/blobs'' 493]\<rparr>"
proof -
  have m: "\<not> MatchString blobDigestRegEx ''sha256:xyz''" by code_simp
  have j: "unix_Join [''/srv/models'', ''blobs''] = ''/srv/models/blobs''" by code_simp
  have e: "fs_calls (world_override ''/srv/models'') = []" by (simp add: world_override_def)
  have r: "modelsDir unix_Join (world_override ''/srv/models'') = Inr ''/srv/models''"
    by (rule modelsDir_world_override)
  show ?thesis
    using GetBlobsPath_validates_before_mkdir [OF r, where digest = "''sha256:xyz''"]
      GetBlobsPath_validates_before_mkdir [OF r, where digest = "[]"] m
    by (simp add: j e)
qed

text \<open>
  Claim C1 as the specification words it fails: the digest \<^verbatim>\<open>sha256:xyz\<close> is not empty and
  fails the pattern, the call returns \<open>ErrInvalidDigestFormat\<close>, and \<^verbatim>\<open>os.MkdirAll\<close> has not
  been called, whereas the call with the empty digest does ask for the blobs directory.
\<close>

theorem GetBlobsPath_bad_digest_creates_nothing:
  "''sha256:xyz'' \<noteq> [] \<and> \<not> MatchString blobDigestRegEx ''sha256:xyz'' \<and>
   fst (GetBlobsPath unix_Join ''sha256:xyz'' (world_override ''/srv/models'')) =
     Inl ErrInvalidDigestFormat \<and>
   fs_calls (snd (GetBlobsPath unix_Join ''sha256:xyz'' (world_override ''/srv/models''))) = [] \<and>
   fs_calls (snd (GetBlobsPath unix_Join [] (world_override ''/srv/models''))) =
     [MkdirAll_call ''/srv/models/blobs'' 493]"
proof -
  have m: "\<not> MatchString blobDigestRegEx ''sha256:xyz''" by code_simp
  have j: "unix_Join [''/srv/models'', ''blobs''] = ''/srv/models/blobs''" by code_simp
  have e: "fs_calls (world_override ''/srv/models'') = []"
    "mkdir_error (world_override ''/srv/models'') p = None" for p
    by (simp_all add: world_override_def)
  show ?thesis
    using m by (simp add: GetBlobsPath_def modelsDir_world_override MkdirAll_def Let_def j e)
qed

text \<open>
  Claim C2. When the store root resolves, \<open>GetBlobsPath\<close> answers \<open>ErrInvalidDigestFormat\<close>
  exactly for the non-empty digests that are not \<^verbatim>\<open>sha256\<close>, then a colon or a dash, then
  exactly 64 hexadecimal characters of either case. So every digest of that form is
  accepted, and a wrong length, a character that is not hexadecimal, a missing prefix or
  another separator is rejected with that error.
\<close>

theorem GetBlobsPath_digest_validation:
  assumes "modelsDir Join w = Inr root"
  shows "(fst (GetBlobsPath Join digest w) = Inl ErrInvalidDigestFormat) =
         (digest \<noteq> [] \<and>
          \<not> (\<exists>sep hex. digest = ''sha256'' @ sep # hex \<and> (sep = CHR '':'' \<or> sep = CHR ''-'') \<and>
                length hex = 64 \<and> set hex \<subseteq> set hex_digits))"
  unfolding MatchString_blobDigestRegEx [symmetric]
  using assms
  by (auto simp: GetBlobsPath_def MkdirAll_def Let_def split: option.split)

theorem GetBlobsPath_digest_validation_witness:
  "fst (GetBlobsPath unix_Join ''sha256:xyz'' (world_override ''/srv/models'')) =
     Inl ErrInvalidDigestFormat \<and>
   fst (GetBlobsPath unix_Join ''sha256_0123456789abcdefABCDEF0123456789abcdefABCDEF0123456789abcdefABCD''
          (world_override ''/srv/models'')) = Inl ErrInvalidDigestFormat \<and>
   fst (GetBlobsPath unix_Join ''sha256-0123456789abcdefABCDEF0123456789abcdefABCDEF0123456789abcdefABCD''
          (world_override ''/srv/models'')) \<noteq> Inl ErrInvalidDigestFormat"
proof -
  have r: "modelsDir unix_Join (world_override ''/srv/models'') = Inr ''/srv/models''"
    by (rule modelsDir_world_override)
  have h: "set ''0123456789abcdefABCDEF0123456789abcdefABCDEF0123456789abcdefABCD'' \<subseteq> set hex_digits"
    by (simp add: hex_digits_def)
  show ?thesis
    using GetBlobsPath_digest_validation [OF r, where digest = "''sha256:xyz''"]
      GetBlobsPath_digest_validation [OF r, where digest =
        "''sha256_0123456789abcdefABCDEF0123456789abcdefABCDEF0123456789abcdefABCD''"]
      GetBlobsPath_digest_validation [OF r, where digest =
        "''sha256-0123456789abcdefABCDEF0123456789abcdefABCDEF0123456789abcdefABCD''"] h
    by simp
qed

text \<open>
  Claim C7. When the store root resolves to \<open>root\<close> and the blobs directory can be made, a
  digest that passes validation gives the path that joins, under the join of \<open>root\<close> and
  \<^verbatim>\<open>blobs\<close>, the digest with a dash for its separator and its hexadecimal characters as they
  were; the empty digest gives the blobs directory itself.
\<close>

theorem GetBlobsPath_result:
  assumes "modelsDir Join w = Inr root"
    and "mkdir_error w (Join [root, ''blobs'']) = None"
  shows "(sep = CHR '':'' \<or> sep = CHR ''-'' \<longrightarrow> length hex = 64 \<longrightarrow> set hex \<subseteq> set hex_digits \<longrightarrow>
            fst (GetBlobsPath Join (''sha256'' @ sep # hex) w) =
              Inr (Join [Join [root, ''blobs''], ''sha256-'' @ hex])) \<and>
         fst (GetBlobsPath Join [] w) = Inr (Join [root, ''blobs''])"
proof (intro conjI impI)
  assume s: "sep = CHR '':'' \<or> sep = CHR ''-''" and l: "length hex = 64"
    and h: "set hex \<subseteq> set hex_digits"
  then have "MatchString blobDigestRegEx (''sha256'' @ sep # hex)"
    unfolding MatchString_blobDigestRegEx by blast
  moreover have "ReplaceAll (''sha256'' @ sep # hex) '':'' ''-'' = ''sha256-'' @ hex"
    using s h by (rule ReplaceAll_digest)
  ultimately show "fst (GetBlobsPath Join (''sha256'' @ sep # hex) w) =
      Inr (Join [Join [root, ''blobs''], ''sha256-'' @ hex])"
    using assms by (simp add: GetBlobsPath_def MkdirAll_def Let_def)
next
  show "fst (GetBlobsPath Join [] w) = Inr (Join [root, ''blobs''])"
    using assms by (simp add: GetBlobsPath_def MkdirAll_def Let_def)
qed

theorem GetBlobsPath_result_witness:
  "fst (GetBlobsPath unix_Join
          ''sha256:0123456789abcdefABCDEF0123456789abcdefABCDEF0123456789abcdefABCD''
          (world_override ''/srv/models'')) =
     Inr ''/srv/models/blobs/sha256-0123456789abcdefABCDEF0123456789abcdefABCDEF0123456789abcdefABCD'' \<and>
   fst (GetBlobsPath unix_Join [] (world_override ''/srv/models'')) = Inr ''/srv/models/blobs''"
proof -
  have r: "modelsDir unix_Join (world_override ''/srv/models'') = Inr ''/srv/models''"
    by (rule modelsDir_world_override)
  have e: "mkdir_error (world_override ''/srv/models'') (unix_Join [''/srv/models'', ''blobs'']) = None"
    by (simp add: world_override_def)
  have j: "unix_Join [''/srv/models'', ''blobs''] = ''/srv/models/blobs''"
    "unix_Join [''/srv/models/blobs'',
       ''sha256-0123456789abcdefABCDEF0123456789abcdefABCDEF0123456789abcdefABCD''] =
     ''/srv/models/blobs/sha256-0123456789abcdefABCDEF0123456789abcdefABCDEF0123456789abcdefABCD''"
    by code_simp+
  have h: "set ''0123456789abcdefABCDEF0123456789abcdefABCDEF0123456789abcdefABCD'' \<subseteq> set hex_digits"
    by (simp add: hex_digits_def)
  show ?thesis
    using GetBlobsPath_result [OF r e, where sep = "CHR '':''"
        and hex = "''0123456789abcdefABCDEF0123456789abcdefABCDEF0123456789abcdefABCD''"] h
    by (simp add: j)
qed

section \<open>Validation and the canonical names\<close>

text \<open>
  Claim C4. \<open>Validate\<close> checks the repository first and the tag second: an empty repository
  gives the error that wraps \<open>errModelPathInvalid\<close> and says that the repository name is
  required, whatever the tag is; otherwise a colon in the tag gives the error that wraps
  \<open>errModelPathInvalid\<close> and says that a colon is not allowed in tag names; every other
  model path is accepted, whatever its registry, namespace and scheme are.
\<close>

theorem Validate_rules:
  "Validate mp =
     (if Repository mp = [] then
        Some (wrapError ''invalid model path: model repository name is required''
                errModelPathInvalid)
      else if CHR '':'' \<in> set (Tag mp) then
        Some (wrapError ''invalid model path: ':' (colon) is not allowed in tag names''
                errModelPathInvalid)
      else None) \<and>
   (\<forall>err. Validate mp = Some err \<longrightarrow> Is err errModelPathInvalid)"
  by (simp add: Validate_def Errorf_repository Errorf_colon Contains_char)

theorem Validate_rules_witness:
  "Validate \<lparr>ProtocolScheme = [], Registry = [], Namespace = [], Repository = [], Tag = ''a:b''\<rparr> =
     Some (wrapError ''invalid model path: model repository name is required''
             errModelPathInvalid) \<and>
   Validate \<lparr>ProtocolScheme = [], Registry = [], Namespace = [], Repository = ''repo'', Tag = ''a:b''\<rparr> =
     Some (wrapError ''invalid model path: ':' (colon) is not allowed in tag names''
             errModelPathInvalid) \<and>
   Validate \<lparr>ProtocolScheme = [], Registry = [], Namespace = [], Repository = ''repo'', Tag = ''v1''\<rparr> =
     None"
  using Validate_rules [where mp = "\<lparr>ProtocolScheme = [], Registry = [], Namespace = [],
      Repository = [], Tag = ''a:b''\<rparr>"]
    Validate_rules [where mp = "\<lparr>ProtocolScheme = [], Registry = [], Namespace = [],
      Repository = ''repo'', Tag = ''a:b''\<rparr>"]
    Validate_rules [where mp = "\<lparr>ProtocolScheme = [], Registry = [], Namespace = [],
      Repository = ''repo'', Tag = ''v1''\<rparr>"]
  by simp

text \<open>
  Claim C6. \<open>GetShortTagname\<close> leaves the registry out exactly when it is the default
  registry, and then leaves the namespace out as well exactly when it is the default
  namespace; with another registry nothing is left out, whatever the namespace is. So the
  short name is \<^verbatim>\<open>repository:tag\<close>, \<^verbatim>\<open>namespace/repository:tag\<close> or
  \<^verbatim>\<open>registry/namespace/repository:tag\<close>. \<open>GetFullTagname\<close> is always the last of the three.
\<close>

theorem tagname_shapes:
  "GetShortTagname mp =
     (if Registry mp = DefaultRegistry then
        (if Namespace mp = DefaultNamespace then Repository mp @ '':'' @ Tag mp
         else Namespace mp @ ''/'' @ Repository mp @ '':'' @ Tag mp)
      else Registry mp @ ''/'' @ Namespace mp @ ''/'' @ Repository mp @ '':'' @ Tag mp) \<and>
   GetFullTagname mp = Registry mp @ ''/'' @ Namespace mp @ ''/'' @ Repository mp @ '':'' @ Tag mp"
  by (simp add: GetShortTagname_def GetFullTagname_def)

theorem tagname_shapes_witness:
  "GetShortTagname \<lparr>ProtocolScheme = ''https'', Registry = ''registry.ollama.ai'',
      Namespace = ''library'', Repository = ''myrepo'', Tag = ''latest''\<rparr> = ''myrepo:latest'' \<and>
   GetShortTagname \<lparr>ProtocolScheme = ''https'', Registry = ''registry.ollama.ai'',
      Namespace = ''ns'', Repository = ''repo'', Tag = ''v1''\<rparr> = ''ns/repo:v1'' \<and>
   GetShortTagname \<lparr>ProtocolScheme = ''https'', Registry = ''example.com'',
      Namespace = ''library'', Repository = ''repo'', Tag = ''v1''\<rparr> = ''example.com/library/repo:v1'' \<and>
   GetFullTagname \<lparr>ProtocolScheme = ''https'', Registry = ''registry.ollama.ai'',
      Namespace = ''library'', Repository = ''myrepo'', Tag = ''latest''\<rparr> =
     ''registry.ollama.ai/library/myrepo:latest''"
  using tagname_shapes [where mp = "\<lparr>ProtocolScheme = ''https'', Registry = ''registry.ollama.ai'',
      Namespace = ''library'', Repository = ''myrepo'', Tag = ''latest''\<rparr>"]
    tagname_shapes [where mp = "\<lparr>ProtocolScheme = ''https'', Registry = ''registry.ollama.ai'',
      Namespace = ''ns'', Repository = ''repo'', Tag = ''v1''\<rparr>"]
    tagname_shapes [where mp = "\<lparr>ProtocolScheme = ''https'', Registry = ''example.com'',
      Namespace = ''library'', Repository = ''repo'', Tag = ''v1''\<rparr>"]
  by (simp add: DefaultRegistry_def DefaultNamespace_def)

section \<open>The parser\<close>

text \<open>
  Claim C3, as the source has it. \<open>ParseModelPath\<close> cuts the name at the first \<^verbatim>\<open>://\<close> into
  the scheme and the rest (without \<^verbatim>\<open>://\<close> the scheme is the default and the rest is the
  whole name). Then every path separator of the platform in the rest is rewritten to a
  slash, which changes nothing where the separator is the slash, and the result is split
  on the slash: \<open>parts\<close> is the one list of slash-free strings that joins to it. Three parts
  are registry, namespace and repository segment; two are namespace and repository segment,
  with the default registry; one is the repository segment, with the default registry and
  namespace (with more than three parts everything stays at its default and the segment is
  empty). Last, the segment is cut at its first colon into repository and tag; without a
  colon it is the repository and the tag is the default.
\<close>

theorem ParseModelPath_grammar:
  "\<exists>rest parts seg.
     (if (\<exists>b a. name = b @ ''://'' @ a)
      then name = ProtocolScheme (ParseModelPath os name) @ ''://'' @ rest \<and>
           (\<forall>b a. name = b @ ''://'' @ a \<longrightarrow>
              length (ProtocolScheme (ParseModelPath os name)) \<le> length b)
      else ProtocolScheme (ParseModelPath os name) = DefaultProtocolScheme \<and> rest = name) \<and>
     parts \<noteq> [] \<and> (\<forall>p\<in>set parts. CHR ''/'' \<notin> set p) \<and>
     strings_Join parts ''/'' = map (\<lambda>c. if c = PathSeparator os then CHR ''/'' else c) rest \<and>
     ((\<forall>r n p. parts = [r, n, p] \<longrightarrow>
         Registry (ParseModelPath os name) = r \<and> Namespace (ParseModelPath os name) = n \<and> seg = p) \<and>
      (\<forall>n p. parts = [n, p] \<longrightarrow>
         Registry (ParseModelPath os name) = DefaultRegistry \<and>
         Namespace (ParseModelPath os name) = n \<and> seg = p) \<and>
      (\<forall>p. parts = [p] \<longrightarrow>
         Registry (ParseModelPath os name) = DefaultRegistry \<and>
         Namespace (ParseModelPath os name) = DefaultNamespace \<and> seg = p) \<and>
      (3 < length parts \<longrightarrow>
         Registry (ParseModelPath os name) = DefaultRegistry \<and>
         Namespace (ParseModelPath os name) = DefaultNamespace \<and> seg = [])) \<and>
     (if CHR '':'' \<in> set seg
      then seg = Repository (ParseModelPath os name) @ '':'' @ Tag (ParseModelPath os name) \<and>
           CHR '':'' \<notin> set (Repository (ParseModelPath os name))
      else Repository (ParseModelPath os name) = seg \<and>
           Tag (ParseModelPath os name) = DefaultTag)"
proof -
  obtain rest parts seg where
    "if (\<exists>b a. name = b @ ''://'' @ a)
      then name = ProtocolScheme (ParseModelPath os name) @ ''://'' @ rest \<and>
           (\<forall>b a. name = b @ ''://'' @ a \<longrightarrow>
              length (ProtocolScheme (ParseModelPath os name)) \<le> length b)
      else ProtocolScheme (ParseModelPath os name) = DefaultProtocolScheme \<and> rest = name"
    "parts \<noteq> []" "\<forall>p\<in>set parts. CHR ''/'' \<notin> set p"
    "strings_Join parts ''/'' = map (\<lambda>c. if c = PathSeparator os then CHR ''/'' else c) rest"
    "\<forall>r n p. parts = [r, n, p] \<longrightarrow>
         Registry (ParseModelPath os name) = r \<and> Namespace (ParseModelPath os name) = n \<and> seg = p"
    "\<forall>n p. parts = [n, p] \<longrightarrow>
         Registry (ParseModelPath os name) = DefaultRegistry \<and>
         Namespace (ParseModelPath os name) = n \<and> seg = p"
    "\<forall>p. parts = [p] \<longrightarrow>
         Registry (ParseModelPath os name) = DefaultRegistry \<and>
         Namespace (ParseModelPath os name) = DefaultNamespace \<and> seg = p"
    "3 < length parts \<longrightarrow>
         Registry (ParseModelPath os name) = DefaultRegistry \<and>
         Namespace (ParseModelPath os name) = DefaultNamespace \<and> seg = []"
    "if CHR '':'' \<in> set seg
      then seg = Repository (ParseModelPath os name) @ '':'' @ Tag (ParseModelPath os name) \<and>
           CHR '':'' \<notin> set (Repository (ParseModelPath os name))
      else Repository (ParseModelPath os name) = seg \<and>
           Tag (ParseModelPath os name) = DefaultTag"
    by (rule ParseModelPath_cases)
  then show ?thesis by (intro exI conjI) assumption+
qed

theorem ParseModelPath_grammar_witness:
  "\<exists>rest parts seg.
     ''http://example.com/ns/repo:v1'' = ''http'' @ ''://'' @ rest \<and>
     Split rest ''/'' = parts \<and> parts = [''example.com'', ''ns'', seg] \<and>
     seg = ''repo'' @ '':'' @ ''v1'' \<and>
     ParseModelPath Unix ''http://example.com/ns/repo:v1'' =
       \<lparr>ProtocolScheme = ''http'', Registry = ''example.com'', Namespace = ''ns'',
        Repository = ''repo'', Tag = ''v1''\<rparr>"
proof -
  let ?name = "''http://example.com/ns/repo:v1''"
  have e: "ParseModelPath Unix ?name =
       \<lparr>ProtocolScheme = ''http'', Registry = ''example.com'', Namespace = ''ns'',
        Repository = ''repo'', Tag = ''v1''\<rparr>"
    by code_simp
  have ex: "\<exists>b a. ?name = b @ ''://'' @ a"
    by (rule exI [of _ "''http''"], rule exI [of _ "''example.com/ns/repo:v1''"]) simp
  have sp: "Split ''example.com/ns/repo:v1'' ''/'' = [''example.com'', ''ns'', ''repo:v1'']"
    by code_simp
  from ParseModelPath_grammar [of ?name Unix] obtain rest parts seg where
    1: "if (\<exists>b a. ?name = b @ ''://'' @ a)
      then ?name = ProtocolScheme (ParseModelPath Unix ?name) @ ''://'' @ rest \<and>
           (\<forall>b a. ?name = b @ ''://'' @ a \<longrightarrow>
              length (ProtocolScheme (ParseModelPath Unix ?name)) \<le> length b)
      else ProtocolScheme (ParseModelPath Unix ?name) = DefaultProtocolScheme \<and> rest = ?name"
    and 2: "parts \<noteq> []" "\<forall>p\<in>set parts. CHR ''/'' \<notin> set p"
    and 3: "strings_Join parts ''/'' =
      map (\<lambda>c. if c = PathSeparator Unix then CHR ''/'' else c) rest"
    and 4: "\<forall>r n p. parts = [r, n, p] \<longrightarrow>
         Registry (ParseModelPath Unix ?name) = r \<and>
         Namespace (ParseModelPath Unix ?name) = n \<and> seg = p"
    by blast
  from 1 ex have "?name = ProtocolScheme (ParseModelPath Unix ?name) @ ''://'' @ rest"
    by (simp only: if_True)
  then have rest: "rest = ''example.com/ns/repo:v1''" unfolding e by simp
  have "map (\<lambda>c. if c = PathSeparator Unix then CHR ''/'' else c) rest = rest"
    by (intro map_idI) simp
  with 3 have "strings_Join parts ''/'' = rest" by simp
  with Split_char_Join [OF 2, of ] have "Split rest ''/'' = parts" by simp
  with rest sp have parts: "parts = [''example.com'', ''ns'', ''repo:v1'']" by simp
  with 4 have seg: "seg = ''repo:v1''" by simp
  show ?thesis
    using rest parts seg \<open>Split rest ''/'' = parts\<close> e by simp
qed

text \<open>
  Claim C3 as the specification words it, with no rewriting of separators, fails where the
  separator is the backslash: the name \<^verbatim>\<open>a\b\<close> has no \<^verbatim>\<open>://\<close> and splits on the slash into
  one segment, yet the parser makes \<^verbatim>\<open>a\<close> the namespace and \<^verbatim>\<open>b\<close> the repository.
\<close>

theorem ParseModelPath_windows_separator:
  "Cut [CHR ''a'', CHR 0x5C, CHR ''b''] ''://'' = ([CHR ''a'', CHR 0x5C, CHR ''b''], [], False) \<and>
   Split [CHR ''a'', CHR 0x5C, CHR ''b''] ''/'' = [[CHR ''a'', CHR 0x5C, CHR ''b'']] \<and>
   Namespace (ParseModelPath Windows [CHR ''a'', CHR 0x5C, CHR ''b'']) = ''a'' \<and>
   Namespace (ParseModelPath Windows [CHR ''a'', CHR 0x5C, CHR ''b'']) \<noteq> DefaultNamespace \<and>
   Repository (ParseModelPath Windows [CHR ''a'', CHR 0x5C, CHR ''b'']) = ''b''"
  by code_simp

text \<open>
  Claim C5, as the source has it. When a string parses to a model path whose registry,
  namespace and scheme are the defaults, parsing the short name of that model path gives
  the same model path again.
\<close>

theorem ParseModelPath_GetShortTagname_roundtrip:
  assumes "Registry (ParseModelPath os s) = DefaultRegistry"
    and "Namespace (ParseModelPath os s) = DefaultNamespace"
    and "ProtocolScheme (ParseModelPath os s) = DefaultProtocolScheme"
  shows "ParseModelPath os (GetShortTagname (ParseModelPath os s)) = ParseModelPath os s"
proof -
  let ?mp = "ParseModelPath os s"
  have "GetShortTagname ?mp = Repository ?mp @ '':'' @ Tag ?mp"
    using assms(1,2) by (simp add: GetShortTagname_def)
  moreover have "ParseModelPath os (Repository ?mp @ '':'' @ Tag ?mp) =
     \<lparr>ProtocolScheme = DefaultProtocolScheme, Registry = DefaultRegistry,
      Namespace = DefaultNamespace, Repository = Repository ?mp, Tag = Tag ?mp\<rparr>"
    by (rule ParseModelPath_plain) (rule ParseModelPath_fields_plain)+
  ultimately show ?thesis using assms by simp
qed

theorem ParseModelPath_GetShortTagname_roundtrip_witness:
  "GetShortTagname (ParseModelPath Unix ''myrepo'') = ''myrepo:latest'' \<and>
   ParseModelPath Unix (GetShortTagname (ParseModelPath Unix ''myrepo'')) =
     ParseModelPath Unix ''myrepo''"
proof -
  have "Registry (ParseModelPath Unix ''myrepo'') = DefaultRegistry"
    and "Namespace (ParseModelPath Unix ''myrepo'') = DefaultNamespace"
    and "ProtocolScheme (ParseModelPath Unix ''myrepo'') = DefaultProtocolScheme"
    by code_simp+
  then have "ParseModelPath Unix (GetShortTagname (ParseModelPath Unix ''myrepo'')) =
     ParseModelPath Unix ''myrepo''"
    by (rule ParseModelPath_GetShortTagname_roundtrip)
  moreover have "GetShortTagname (ParseModelPath Unix ''myrepo'') = ''myrepo:latest''"
    by code_simp
  ultimately show ?thesis by blast
qed

text \<open>
  Claim C5 as the specification words it, with the registry and the namespace at their
  defaults and nothing said of the scheme, fails: the short name does not carry the scheme,
  so \<^verbatim>\<open>http://repo\<close> comes back with the scheme \<^verbatim>\<open>https\<close>.
\<close>

theorem roundtrip_loses_scheme:
  "Registry (ParseModelPath Unix ''http://repo'') = DefaultRegistry \<and>
   Namespace (ParseModelPath Unix ''http://repo'') = DefaultNamespace \<and>
   ProtocolScheme (ParseModelPath Unix ''http://repo'') = ''http'' \<and>
   GetShortTagname (ParseModelPath Unix ''http://repo'') = ''repo:latest'' \<and>
   ProtocolScheme (ParseModelPath Unix (GetShortTagname (ParseModelPath Unix ''http://repo''))) =
     ''https'' \<and>
   ParseModelPath Unix (GetShortTagname (ParseModelPath Unix ''http://repo'')) \<noteq>
     ParseModelPath Unix ''http://repo''"
  by code_simp

text \<open>
  Claim C10, as the source has it. When the segment that the parser takes for the
  repository is a non-empty name without a colon followed by one colon, the repository is
  that name and the tag is empty, not the default; \<open>Validate\<close> accepts the model path, and
  the short and the full name end in the name and a colon.
\<close>

theorem ParseModelPath_trailing_colon:
  assumes "Cut raw ''://'' = (before, after, found)"
    and "parts = Split (ReplaceAll (if found then after else raw) [PathSeparator os] ''/'') ''/''"
    and "length parts = 1 \<or> length parts = 2 \<or> length parts = 3"
    and "last parts = repo @ '':''"
    and "repo \<noteq> []" and "CHR '':'' \<notin> set repo"
  shows "Repository (ParseModelPath os raw) = repo \<and>
     Tag (ParseModelPath os raw) = [] \<and>
     Validate (ParseModelPath os raw) = None \<and>
     GetShortTagname (ParseModelPath os raw) =
       (if Registry (ParseModelPath os raw) = DefaultRegistry then
          (if Namespace (ParseModelPath os raw) = DefaultNamespace then repo @ '':''
           else Namespace (ParseModelPath os raw) @ ''/'' @ repo @ '':'')
        else Registry (ParseModelPath os raw) @ ''/'' @ Namespace (ParseModelPath os raw) @
             ''/'' @ repo @ '':'') \<and>
     GetFullTagname (ParseModelPath os raw) =
       Registry (ParseModelPath os raw) @ ''/'' @ Namespace (ParseModelPath os raw) @
       ''/'' @ repo @ '':''"
proof -
  define seg where "seg = (if length parts = 3 then parts ! 2 else if length parts = 2 then parts ! 1
                else if length parts = 1 then parts ! 0 else [])"
  from assms(3) have "parts \<noteq> []" by auto
  with assms(3) have "seg = last parts"
    unfolding seg_def by (auto simp: last_conv_nth)
  with assms(4) have seg: "seg = repo @ '':''" by simp
  have c2: "Cut seg '':'' = (repo, [], True)"
    unfolding seg using Cut_char_first [OF assms(6), of "[]"] by simp
  from ParseModelPath_unfold [OF assms(1,2) seg_def c2]
  have rt: "Repository (ParseModelPath os raw) = repo" "Tag (ParseModelPath os raw) = []"
    by simp_all
  have "Validate (ParseModelPath os raw) = None"
    using assms(5) by (simp add: Validate_def rt Contains_char)
  then show ?thesis
    by (simp add: rt GetShortTagname_def GetFullTagname_def)
qed

theorem ParseModelPath_trailing_colon_witness:
  "Repository (ParseModelPath Unix ''ns/repo:'') = ''repo'' \<and>
   Tag (ParseModelPath Unix ''ns/repo:'') = [] \<and>
   Validate (ParseModelPath Unix ''ns/repo:'') = None \<and>
   GetShortTagname (ParseModelPath Unix ''ns/repo:'') = ''ns/repo:'' \<and>
   GetFullTagname (ParseModelPath Unix ''ns/repo:'') = ''registry.ollama.ai/ns/repo:''"
proof -
  have c: "Cut ''ns/repo:'' ''://'' = (''ns/repo:'', [], False)" by code_simp
  have p: "[''ns'', ''repo:''] =
      Split (ReplaceAll (if False then [] else ''ns/repo:'') [PathSeparator Unix] ''/'') ''/''"
    by code_simp
  have f: "Registry (ParseModelPath Unix ''ns/repo:'') = DefaultRegistry"
    "Namespace (ParseModelPath Unix ''ns/repo:'') = ''ns''" "''ns'' \<noteq> DefaultNamespace"
    by code_simp+
  show ?thesis
    using ParseModelPath_trailing_colon [OF c p, where repo = "''repo''"] f
    by (simp add: DefaultRegistry_def)
qed

text \<open>
  Claim C10 for every segment that ends in a colon fails: the name \<^verbatim>\<open>:\<close> gives an empty
  repository, which \<open>Validate\<close> rejects, and \<^verbatim>\<open>a:b:\<close> is cut at its first colon, so its tag is
  \<^verbatim>\<open>b:\<close>, which \<open>Validate\<close> rejects for its colon.
\<close>

theorem trailing_colon_can_fail_Validate:
  "Repository (ParseModelPath Unix '':'') = [] \<and> Tag (ParseModelPath Unix '':'') = [] \<and>
   Validate (ParseModelPath Unix '':'') =
     Some (wrapError ''invalid model path: model repository name is required''
             errModelPathInvalid) \<and>
   Repository (ParseModelPath Unix ''a:b:'') = ''a'' \<and> Tag (ParseModelPath Unix ''a:b:'') = ''b:'' \<and>
   Validate (ParseModelPath Unix ''a:b:'') =
     Some (wrapError ''invalid model path: ':' (colon) is not allowed in tag names''
             errModelPathInvalid)"
  by code_simp

end
